theory Spec2Isabelle
  imports Complex_Main
begin

section \<open>Python strings\<close>

text \<open>
  A Python \<open>str\<close> is a sequence of Unicode code points. It is modelled as a list of
  natural numbers, one per code point, so that \<open>len\<close> is \<open>length\<close> and iterating over
  the string is iterating over the list. \<open>str\<close> turns an ASCII literal into such a list.
\<close>

type_synonym pystr = "nat list"

definition str :: "string \<Rightarrow> pystr" where
  "str s = map of_char s"

text \<open>
  \<open>ch.isspace()\<close> for a single code point: the whitespace code points of CPython's
  Unicode database. \<open>str.split()\<close> and \<open>str.strip()\<close> without arguments use the same set.
\<close>

definition isspace :: "nat \<Rightarrow> bool" where
  "isspace c \<longleftrightarrow>
     (9 \<le> c \<and> c \<le> 13) \<or> (28 \<le> c \<and> c \<le> 32) \<or> c = 133 \<or> c = 160 \<or> c = 5760 \<or>
     (8192 \<le> c \<and> c \<le> 8202) \<or> c = 8232 \<or> c = 8233 \<or> c = 8239 \<or> c = 8287 \<or> c = 12288"

text \<open>\<open>s.strip()\<close>: leading and trailing whitespace removed.\<close>

definition strip :: "pystr \<Rightarrow> pystr" where
  "strip s = rev (dropWhile isspace (rev (dropWhile isspace s)))"

text \<open>
  \<open>s.split()\<close>: the maximal runs of non-whitespace code points, in order. The first
  argument of \<open>split_run\<close> is the run being collected.
\<close>

fun split_run :: "pystr \<Rightarrow> pystr \<Rightarrow> pystr list" where
  "split_run cur [] = (if cur = [] then [] else [cur])"
| "split_run cur (c # cs) =
     (if isspace c then (if cur = [] then split_run [] cs else cur # split_run [] cs)
      else split_run (cur @ [c]) cs)"

definition split :: "pystr \<Rightarrow> pystr list" where
  "split s = split_run [] s"

text \<open>
  \<open>s.split(sep)\<close> for a one-character separator: every occurrence of the separator
  ends a piece, and the result always has at least one piece.
\<close>

fun split_on_run :: "nat \<Rightarrow> pystr \<Rightarrow> pystr \<Rightarrow> pystr list" where
  "split_on_run sep cur [] = [cur]"
| "split_on_run sep cur (c # cs) =
     (if c = sep then cur # split_on_run sep [] cs else split_on_run sep (cur @ [c]) cs)"

definition split_on :: "nat \<Rightarrow> pystr \<Rightarrow> pystr list" where
  "split_on sep s = split_on_run sep [] s"

text \<open>\<open>" ".join(lines)\<close>.\<close>

fun join_space :: "pystr list \<Rightarrow> pystr" where
  "join_space [] = []"
| "join_space [l] = l"
| "join_space (l # ls) = l @ [32] @ join_space ls"

text \<open>
  \<open>s.lower()\<close> on the ASCII letters; every other code point is left as it is. No code
  point outside ASCII lowers to a letter of \<open>png\<close>, \<open>webp\<close> or \<open>transparent\<close>, the
  only strings a lowered string is compared with.
\<close>

definition lower :: "pystr \<Rightarrow> pystr" where
  "lower s = map (\<lambda>c. if 65 \<le> c \<and> c \<le> 90 then c + 32 else c) s"

text \<open>\<open>int(r)\<close> on a float: truncation towards zero.\<close>

definition py_int :: "real \<Rightarrow> int" where
  "py_int r = (if 0 \<le> r then \<lfloor>r\<rfloor> else \<lceil>r\<rceil>)"

section \<open>Python floats\<close>

text \<open>
  A Python \<open>float\<close> is an IEEE 754 binary64 number. The finite floats are modelled as
  the reals they denote, and every arithmetic operation rounds its exact result to the
  nearest float, ties to even: \<open>fl\<close> is that rounding, for results in the normal range
  of binary64 (underflow and overflow are outside the model). \<open>bits n\<close> is the number
  of binary digits of \<open>n\<close>; \<open>floor_log2 a\<close> is the exponent \<open>e\<close> of \<open>a > 0\<close>, the integer
  with \<open>pow2 e \<le> a < pow2 (e + 1)\<close>; the floats with that exponent are the multiples of
  \<open>pow2 (e - 52)\<close>, and \<open>round_even\<close> picks the nearest multiple.
\<close>

fun bits :: "nat \<Rightarrow> nat" where
  "bits n = (if n = 0 then 0 else Suc (bits (n div 2)))"

declare bits.simps [simp del]

definition floor_log2 :: "real \<Rightarrow> int" where
  "floor_log2 a =
     (if 1 \<le> a then int (bits (nat \<lfloor>a\<rfloor>)) - 1
      else - int (bits (nat (\<lceil>1 / a\<rceil> - 1))))"

definition pow2 :: "int \<Rightarrow> real" where
  "pow2 e = (if 0 \<le> e then 2 ^ nat e else 1 / 2 ^ nat (- e))"

definition round_even :: "real \<Rightarrow> int" where
  "round_even r =
     (if r - of_int \<lfloor>r\<rfloor> < 1 / 2 then \<lfloor>r\<rfloor>
      else if r - of_int \<lfloor>r\<rfloor> > 1 / 2 then \<lfloor>r\<rfloor> + 1
      else if even \<lfloor>r\<rfloor> then \<lfloor>r\<rfloor> else \<lfloor>r\<rfloor> + 1)"

definition fl :: "real \<Rightarrow> real" where
  "fl x =
     (if x = 0 then 0
      else sgn x * of_int (round_even (\<bar>x\<bar> / pow2 (floor_log2 \<bar>x\<bar> - 52))) *
           pow2 (floor_log2 \<bar>x\<bar> - 52))"

text \<open>
  The float operations \<open>a + b\<close>, \<open>a - b\<close>, \<open>a * b\<close> and \<open>a / b\<close>. An \<open>int\<close> operand is
  converted first: \<open>fl (of_int n)\<close>; the literal \<open>2\<close> is a float as it stands. A decimal
  literal such as \<open>1.2\<close> is the float nearest to it: \<open>fl 1.2\<close>.
\<close>

definition fadd :: "real \<Rightarrow> real \<Rightarrow> real" where
  "fadd a b = fl (a + b)"

definition fsub :: "real \<Rightarrow> real \<Rightarrow> real" where
  "fsub a b = fl (a - b)"

definition fmul :: "real \<Rightarrow> real \<Rightarrow> real" where
  "fmul a b = fl (a * b)"

definition fdiv :: "real \<Rightarrow> real \<Rightarrow> real" where
  "fdiv a b = fl (a / b)"

section \<open>Fonts and measurement\<close>

text \<open>
  A loaded \<open>ImageFont.FreeTypeFont\<close> is seen only through two measurements of Pillow:
  \<open>draw.textlength(text, font)\<close>, the advance width of one line, and
  \<open>draw.multiline_textbbox((0, 0), text, font)\<close>.
\<close>

record font =
  textlength :: "pystr \<Rightarrow> real"
  multiline_textbbox :: "pystr \<Rightarrow> int \<times> int \<times> int \<times> int"

definition measure_text :: "font \<Rightarrow> pystr \<Rightarrow> real" where
  "measure_text f t = textlength f t"

section \<open>The line breaker\<close>

text \<open>
  The character loop of \<open>wrap_text_lines\<close>: it occurs twice in the source, once over the
  whole text when it has no whitespace (variables \<open>lines\<close>, \<open>current\<close>) and once over a
  word wider than the box (variables \<open>lines\<close>, \<open>chunk\<close>). The state is the list of
  finished lines and the line being built.
\<close>

fun char_loop :: "font \<Rightarrow> real \<Rightarrow> pystr \<Rightarrow> pystr list \<Rightarrow> pystr \<Rightarrow> pystr list \<times> pystr" where
  "char_loop f max_width [] lines current = (lines, current)"
| "char_loop f max_width (ch # rest) lines current =
     (let test = current @ [ch] in
      if measure_text f test \<le> max_width \<or> current = []
      then char_loop f max_width rest lines test
      else char_loop f max_width rest (lines @ [current]) [ch])"

text \<open>The loop over the words, \<open>for word in words\<close>.\<close>

fun word_loop :: "font \<Rightarrow> real \<Rightarrow> pystr list \<Rightarrow> pystr list \<Rightarrow> pystr \<Rightarrow> pystr list \<times> pystr" where
  "word_loop f max_width [] lines current = (lines, current)"
| "word_loop f max_width (word # rest) lines current =
     (let test = strip (current @ [32] @ word) in
      if measure_text f test \<le> max_width then word_loop f max_width rest lines test
      else
        let lines1 = (if current \<noteq> [] then lines @ [current] else lines) in
        if measure_text f word \<le> max_width then word_loop f max_width rest lines1 word
        else
          (case char_loop f max_width word lines1 [] of
             (lines2, chunk) \<Rightarrow> word_loop f max_width rest lines2 chunk))"

text \<open>The final \<open>if current: lines.append(current)\<close> of both branches.\<close>

definition flush :: "pystr list \<times> pystr \<Rightarrow> pystr list" where
  "flush st = (case st of (lines, current) \<Rightarrow> if current \<noteq> [] then lines @ [current] else lines)"

definition wrap_text_lines :: "font \<Rightarrow> pystr \<Rightarrow> real \<Rightarrow> pystr list" where
  "wrap_text_lines f text max_width =
     (if text = [] then [[]]
      else if \<not> list_ex isspace text then flush (char_loop f max_width text [] [])
      else flush (word_loop f max_width (split text) [] []))"

section \<open>Images and drawing primitives\<close>

text \<open>
  A Pillow colour argument is a colour string or a tuple; the only tuple of the source
  is \<open>(0, 0, 0, 0)\<close>, fully transparent.
\<close>

datatype color_arg = ColorStr pystr | ColorTuple int int int int

text \<open>
  The off-screen buffer of the italic case: \<open>temp\<close> with the offsets at which the text is
  stamped into it, and \<open>transformed\<close>, the sheared copy of it.
\<close>

record temp_image =
  temp_width :: int
  temp_height :: int
  temp_text :: pystr
  temp_fill :: pystr
  temp_stamps :: "(int \<times> int) list"

record transformed_image =
  tr_width :: int
  tr_height :: int
  tr_shear :: real
  tr_source :: temp_image

text \<open>
  What has been drawn on an image, in order: \<open>draw.text\<close>, \<open>base.paste\<close>, \<open>draw.line\<close>
  and \<open>draw.multiline_text\<close>. The font of a stamp is the font the caller loaded and is
  not recorded.
\<close>

datatype draw_op =
    DrawText real real pystr pystr
  | Paste int int transformed_image
  | DrawLine real real real real pystr int
  | DrawMultilineText int int pystr pystr

record image =
  img_mode :: string
  img_width :: int
  img_height :: int
  img_color :: color_arg
  img_ops :: "draw_op list"

definition Image_new :: "string \<Rightarrow> int \<Rightarrow> int \<Rightarrow> color_arg \<Rightarrow> image" where
  "Image_new m w h c = \<lparr>img_mode = m, img_width = w, img_height = h, img_color = c, img_ops = []\<rparr>"

definition draw :: "image \<Rightarrow> draw_op \<Rightarrow> image" where
  "draw img op = img\<lparr>img_ops := img_ops img @ [op]\<rparr>"

section \<open>Loading a font\<close>

datatype error = HTTPException int string | Unhandled

text \<open>
  A font file is seen through \<open>ImageFont.truetype\<close> at a size: it gives a font, raises
  \<open>OSError\<close> or raises something else; and through the same call on the copy re-saved
  by fontTools, which gives a font or fails.
\<close>

datatype truetype_result = Loaded font | OSError | OtherError

record font_file =
  truetype :: "int \<Rightarrow> truetype_result"
  resaved :: "int \<Rightarrow> font option"

definition load_font :: "font_file \<Rightarrow> int \<Rightarrow> error + font" where
  "load_font font_path sz =
     (case truetype font_path sz of
        Loaded f \<Rightarrow> Inr f
      | OtherError \<Rightarrow> Inl Unhandled
      | OSError \<Rightarrow>
          (case resaved font_path sz of
             Some f \<Rightarrow> Inr f
           | None \<Rightarrow> Inl (HTTPException 400 ''Failed to load font'')))"

section \<open>The preview renderer\<close>

definition draw_text_preview ::
  "font_file \<Rightarrow> pystr \<Rightarrow> int \<Rightarrow> int \<Rightarrow> int \<Rightarrow> int \<Rightarrow> pystr \<Rightarrow> pystr \<Rightarrow> pystr \<Rightarrow> error + image" where
  "draw_text_preview font_path text sz width height padding col background image_format =
     (let img = (if lower image_format = str ''png''
                   then Image_new ''RGBA'' width height (ColorTuple 0 0 0 0)
                   else Image_new ''RGB'' width height (ColorStr background))
      in case load_font font_path sz of
           Inl e \<Rightarrow> Inl e
         | Inr f \<Rightarrow>
             (case multiline_textbbox f text of
                (b0, b1, b2, b3) \<Rightarrow>
                  let text_width = b2 - b0;
                      text_height = b3 - b1;
                      x = max padding ((width - text_width) div 2);
                      y = max padding ((height - text_height) div 2)
                  in Inr (draw img (DrawMultilineText x y text col))))"

section \<open>One styled line\<close>

text \<open>
  The sums and products that this function forms from its arguments are written
  unrounded.
\<close>

definition draw_line_with_style ::
  "image \<Rightarrow> pystr \<Rightarrow> real \<Rightarrow> real \<Rightarrow> font \<Rightarrow> pystr \<Rightarrow> bool \<Rightarrow> bool \<Rightarrow> bool \<Rightarrow> real \<Rightarrow> image" where
  "draw_line_with_style base text x y f col underline bold italic line_height =
     (let base1 =
        (if italic then
           let text_width = py_int (measure_text f text) + 20;
               temp_h = py_int (line_height * 1.2);
               offsets = (if bold then [(0, 0), (1, 0), (0, 1)] else [(0, 0)]);
               temp = \<lparr>temp_width = text_width, temp_height = temp_h, temp_text = text,
                       temp_fill = col, temp_stamps = offsets\<rparr>;
               shear = - 0.25;
               transformed =
                 \<lparr>tr_width = temp_width temp + py_int (of_int (temp_height temp) * \<bar>shear\<bar>),
                  tr_height = temp_height temp, tr_shear = shear, tr_source = temp\<rparr>
           in draw base (Paste (py_int x) (py_int y) transformed)
         else
           let offsets = (if bold then [(0, 0), (1, 0), (0, 1)] else [(0, 0)])
           in foldl (\<lambda>b (dx, dy). draw b (DrawText (x + dx) (y + dy) text col)) base offsets)
      in if underline then
           let text_width = measure_text f text;
               underline_y = y + line_height * 0.85
           in draw base1 (DrawLine x underline_y (x + text_width) underline_y col
                            (max 1 (py_int (line_height * 0.06))))
         else base1)"

section \<open>Block layout\<close>

record TextBoxPayload =
  box_x :: real
  box_y :: real
  box_width :: real
  box_height :: real

record TextStylePayload =
  fontSize :: int
  color :: pystr
  fontWeight :: int
  fontStyle :: pystr
  textDecoration :: pystr
  textAlign :: pystr

record TextBlockPayload =
  block_key :: pystr
  block_text :: pystr
  block_box :: TextBoxPayload
  block_style :: TextStylePayload

text \<open>The local variables of \<open>draw_layout_text\<close> that its loops read.\<close>

record layout_vars =
  v_font :: font
  v_bold :: bool
  v_italic :: bool
  v_underline :: bool
  v_line_height :: real
  v_x :: real
  v_y :: real
  v_w :: real
  v_h :: real
  v_align :: pystr
  v_color :: pystr

text \<open>
  \<open>for line in lines\<close>, which the source has twice with the same body. The result says
  whether the loop left through \<open>return\<close>, and gives \<open>cursor_y\<close> and the image.
\<close>

fun draw_lines :: "layout_vars \<Rightarrow> pystr list \<Rightarrow> real \<Rightarrow> image \<Rightarrow> bool \<times> real \<times> image" where
  "draw_lines v [] cursor_y img = (False, cursor_y, img)"
| "draw_lines v (line # rest) cursor_y img =
     (if fadd cursor_y (v_line_height v) > fadd (v_y v) (v_h v) then (True, cursor_y, img)
      else
        let line_width = measure_text (v_font v) line;
            draw_x = (if v_align v = str ''center''
                      then fadd (v_x v) (fdiv (fsub (v_w v) line_width) 2)
                      else if v_align v = str ''right''
                      then fadd (v_x v) (fsub (v_w v) line_width)
                      else v_x v)
        in draw_lines v rest (fadd cursor_y (v_line_height v))
             (draw_line_with_style img line draw_x cursor_y (v_font v) (v_color v)
                (v_underline v) (v_bold v) (v_italic v) (v_line_height v)))"

text \<open>\<open>for idx, paragraph in enumerate(paragraphs)\<close>; \<open>n\<close> is \<open>len(paragraphs)\<close>.\<close>

fun draw_paragraphs :: "layout_vars \<Rightarrow> nat \<Rightarrow> nat \<Rightarrow> pystr list \<Rightarrow> real \<Rightarrow> image \<Rightarrow> image" where
  "draw_paragraphs v idx n [] cursor_y img = img"
| "draw_paragraphs v idx n (paragraph # rest) cursor_y img =
     (let lines = wrap_text_lines (v_font v) paragraph (v_w v) in
      case draw_lines v lines cursor_y img of
        (returned, cursor_y1, img1) \<Rightarrow>
          if returned then img1
          else draw_paragraphs v (idx + 1) n rest
                 (if int idx < int n - 1
                  then fadd cursor_y1 (fmul (v_line_height v) (fl 0.2)) else cursor_y1)
                 img1)"

definition layout_locals :: "image \<Rightarrow> TextBlockPayload \<Rightarrow> font \<Rightarrow> layout_vars" where
  "layout_locals img block f =
     \<lparr>v_font = f,
      v_bold = (fontWeight (block_style block) \<ge> 700),
      v_italic = (fontStyle (block_style block) = str ''italic''),
      v_underline = (textDecoration (block_style block) = str ''underline''),
      v_line_height = fmul (fl (of_int (fontSize (block_style block)))) (fl 1.2),
      v_x = fmul (box_x (block_box block)) (fl (of_int (img_width img))),
      v_y = fmul (box_y (block_box block)) (fl (of_int (img_height img))),
      v_w = fmul (box_width (block_box block)) (fl (of_int (img_width img))),
      v_h = fmul (box_height (block_box block)) (fl (of_int (img_height img))),
      v_align = (if textAlign (block_style block) = [] then str ''left''
                 else textAlign (block_style block)),
      v_color = color (block_style block)\<rparr>"

definition draw_layout_text :: "image \<Rightarrow> TextBlockPayload \<Rightarrow> font_file \<Rightarrow> bool \<Rightarrow> error + image" where
  "draw_layout_text img block font_path respect_line_breaks =
     (case load_font font_path (fontSize (block_style block)) of
        Inl e \<Rightarrow> Inl e
      | Inr f \<Rightarrow>
          let v = layout_locals img block f;
              paragraphs = split_on 10 (block_text block)
          in if respect_line_breaks
             then Inr (snd (snd (draw_lines v paragraphs (v_y v) img)))
             else Inr (draw_paragraphs v 0 (length paragraphs) paragraphs (v_y v) img))"

section \<open>The two render operations\<close>

record PreviewRequest =
  pr_font :: pystr
  pr_text :: pystr
  pr_size :: int
  pr_width :: int
  pr_height :: int
  pr_padding :: int
  pr_color :: pystr
  pr_background :: pystr
  pr_format :: pystr

record LayoutRequest =
  lr_font :: pystr
  lr_width :: int
  lr_height :: int
  lr_background :: pystr
  lr_format :: pystr
  lr_blocks :: "TextBlockPayload list"
  lr_respectLineBreaks :: bool

record response =
  content :: image
  media_type :: string

text \<open>
  \<open>resolve_font_path\<close> looks the name up in the font directory. The directory is a
  parameter: what the path checks after the name check give for a name.
\<close>

type_synonym font_dir = "pystr \<Rightarrow> error + font_file"

definition resolve_font_path :: "font_dir \<Rightarrow> pystr \<Rightarrow> error + font_file" where
  "resolve_font_path d file_name =
     (if take 2 file_name = str ''._'' then Inl (HTTPException 400 ''Unsupported font file.'')
      else d file_name)"

definition fonts_preview :: "font_dir \<Rightarrow> PreviewRequest \<Rightarrow> error + response" where
  "fonts_preview d payload =
     (case resolve_font_path d (pr_font payload) of
        Inl e \<Rightarrow> Inl e
      | Inr font_path \<Rightarrow>
          if pr_size payload \<le> 0 \<or> pr_width payload \<le> 0 \<or> pr_height payload \<le> 0
          then Inl (HTTPException 400 ''Size and dimensions must be positive.'')
          else
            let image_format = lower (pr_format payload) in
            if image_format \<noteq> str ''png'' \<and> image_format \<noteq> str ''webp''
            then Inl (HTTPException 400 ''Unsupported format.'')
            else
              (case draw_text_preview font_path (pr_text payload) (pr_size payload)
                      (pr_width payload) (pr_height payload) (pr_padding payload)
                      (pr_color payload) (pr_background payload) image_format of
                 Inl e \<Rightarrow> Inl e
               | Inr img \<Rightarrow>
                   Inr \<lparr>content = img,
                        media_type = (if image_format = str ''webp'' then ''image/webp''
                                      else ''image/png'')\<rparr>))"

text \<open>
  \<open>for block in payload.blocks\<close>: the image as it is when the loop ends, and the
  exception that ended it, if any.
\<close>

fun draw_blocks :: "image \<Rightarrow> TextBlockPayload list \<Rightarrow> font_file \<Rightarrow> bool \<Rightarrow> image \<times> error option" where
  "draw_blocks img [] font_path r = (img, None)"
| "draw_blocks img (block # rest) font_path r =
     (case draw_layout_text img block font_path r of
        Inl e \<Rightarrow> (img, Some e)
      | Inr img1 \<Rightarrow> draw_blocks img1 rest font_path r)"

text \<open>
  \<open>fonts_layout\<close> up to the loop over the blocks: the error of a check, or the fresh
  image and the resolved font.
\<close>

definition fonts_layout_begin :: "font_dir \<Rightarrow> LayoutRequest \<Rightarrow> error + (image \<times> font_file \<times> pystr)" where
  "fonts_layout_begin d payload =
     (case resolve_font_path d (lr_font payload) of
        Inl e \<Rightarrow> Inl e
      | Inr font_path \<Rightarrow>
          if lr_width payload \<le> 0 \<or> lr_height payload \<le> 0
          then Inl (HTTPException 400 ''Invalid layout dimensions.'')
          else
            let image_format = lower (lr_format payload) in
            if image_format \<noteq> str ''webp'' \<and> image_format \<noteq> str ''png''
            then Inl (HTTPException 400 ''Unsupported format.'')
            else
              let mode = (if image_format = str ''png'' then ''RGBA'' else ''RGB'');
                  background = (if lr_background payload = [] then str ''#000000''
                                else lr_background payload);
                  background1 = (if lower background = str ''transparent''
                                 then ColorTuple 0 0 0 0 else ColorStr background)
              in Inr (Image_new mode (lr_width payload) (lr_height payload) background1,
                      font_path, image_format))"

definition fonts_layout :: "font_dir \<Rightarrow> LayoutRequest \<Rightarrow> error + response" where
  "fonts_layout d payload =
     (case fonts_layout_begin d payload of
        Inl e \<Rightarrow> Inl e
      | Inr (img, font_path, image_format) \<Rightarrow>
          (case draw_blocks img (lr_blocks payload) font_path (lr_respectLineBreaks payload) of
             (img1, Some e) \<Rightarrow> Inl e
           | (img1, None) \<Rightarrow>
               Inr \<lparr>content = img1,
                    media_type = (if image_format = str ''webp'' then ''image/webp''
                                  else ''image/png'')\<rparr>))"

section \<open>Notions used in the statements\<close>

text \<open>A line is acceptable at a width when it fits or is one character long.\<close>

definition line_ok :: "font \<Rightarrow> real \<Rightarrow> pystr \<Rightarrow> bool" where
  "line_ok f w l \<longleftrightarrow> measure_text f l \<le> w \<or> length l = 1"

text \<open>
  A font for concrete inputs: at size \<open>sz\<close> every code point advances by \<open>sz\<close> pixels.
  Its file loads at every positive size and raises something other than \<open>OSError\<close>
  at the others.
\<close>

definition mono_font :: "int \<Rightarrow> font" where
  "mono_font sz =
     \<lparr>textlength = (\<lambda>t. of_int sz * of_nat (length t)),
      multiline_textbbox = (\<lambda>t. (0, 0, sz * int (length t), sz))\<rparr>"

definition mono_file :: font_file where
  "mono_file =
     \<lparr>truetype = (\<lambda>sz. if sz \<le> 0 then OtherError else Loaded (mono_font sz)),
      resaved = (\<lambda>sz. None)\<rparr>"

text \<open>A horizontal rule among the drawing operations.\<close>

definition is_rule :: "draw_op \<Rightarrow> bool" where
  "is_rule op = (case op of DrawLine x0 y0 x1 y1 c w \<Rightarrow> True | _ \<Rightarrow> False)"

text \<open>
  What one call of \<open>draw_line_with_style\<close> draws, whatever the image it draws on: the
  operations it leaves on a blank image.
\<close>

definition line_ops ::
  "pystr \<Rightarrow> real \<Rightarrow> real \<Rightarrow> font \<Rightarrow> pystr \<Rightarrow> bool \<Rightarrow> bool \<Rightarrow> bool \<Rightarrow> real \<Rightarrow> draw_op list" where
  "line_ops t x y f col underline bold italic lh =
     img_ops (draw_line_with_style (Image_new [] 0 0 (ColorTuple 0 0 0 0)) t x y f col
                underline bold italic lh)"

text \<open>
  The layout of a block as the specification words it, were the box unbounded below:
  each line with the value of \<open>cursor_y\<close> at which it is reached. \<open>advance lh n cy\<close> is
  the cursor after \<open>n\<close> float additions of the line height. \<open>spec_line_positions\<close>
  places a list of lines one line height apart. \<open>spec_wrap_plan\<close> does so for the
  lines of each paragraph in turn and adds a gap of 0.2 line heights after each
  paragraph except the last. \<open>spec_layout_plan\<close> is the plan of a block text in either
  mode.
\<close>

definition advance :: "real \<Rightarrow> nat \<Rightarrow> real \<Rightarrow> real" where
  "advance lh n cy = ((\<lambda>c. fadd c lh) ^^ n) cy"

fun spec_line_positions :: "real \<Rightarrow> real \<Rightarrow> pystr list \<Rightarrow> (pystr \<times> real) list" where
  "spec_line_positions lh cy [] = []"
| "spec_line_positions lh cy (l # ls) = (l, cy) # spec_line_positions lh (fadd cy lh) ls"

fun spec_wrap_plan :: "font \<Rightarrow> real \<Rightarrow> real \<Rightarrow> real \<Rightarrow> pystr list \<Rightarrow> (pystr \<times> real) list" where
  "spec_wrap_plan f w lh cy [] = []"
| "spec_wrap_plan f w lh cy (p # ps) =
     spec_line_positions lh cy (wrap_text_lines f p w) @
     spec_wrap_plan f w lh
       (if ps = [] then advance lh (length (wrap_text_lines f p w)) cy
        else fadd (advance lh (length (wrap_text_lines f p w)) cy) (fmul lh (fl 0.2)))
       ps"

definition spec_layout_plan :: "layout_vars \<Rightarrow> pystr \<Rightarrow> bool \<Rightarrow> (pystr \<times> real) list" where
  "spec_layout_plan v t r =
     (if r then spec_line_positions (v_line_height v) (v_y v) (split_on 10 t)
      else spec_wrap_plan (v_font v) (v_w v) (v_line_height v) (v_y v) (split_on 10 t))"

text \<open>
  A planned line fits when the cursor plus the line height does not pass the box
  bottom, both sums being float sums.
\<close>

definition fits :: "layout_vars \<Rightarrow> pystr \<times> real \<Rightarrow> bool" where
  "fits v lc \<longleftrightarrow> fadd (snd lc) (v_line_height v) \<le> fadd (v_y v) (v_h v)"

text \<open>
  The operations of a planned line: the call that the loop body makes for it, with the
  horizontal position it computes from the alignment.
\<close>

definition placed :: "layout_vars \<Rightarrow> pystr \<times> real \<Rightarrow> draw_op list" where
  "placed v lc =
     line_ops (fst lc)
       (if v_align v = str ''center''
        then fadd (v_x v) (fdiv (fsub (v_w v) (measure_text (v_font v) (fst lc))) 2)
        else if v_align v = str ''right''
        then fadd (v_x v) (fsub (v_w v) (measure_text (v_font v) (fst lc)))
        else v_x v)
       (snd lc) (v_font v) (v_color v) (v_underline v) (v_bold v) (v_italic v) (v_line_height v)"

text \<open>
  A colour string of the form \<open>#rrggbb\<close>, which Pillow accepts; what Pillow does with
  other strings is outside the model.
\<close>

definition is_hex_digit :: "nat \<Rightarrow> bool" where
  "is_hex_digit c \<longleftrightarrow> (48 \<le> c \<and> c \<le> 57) \<or> (65 \<le> c \<and> c \<le> 70) \<or> (97 \<le> c \<and> c \<le> 102)"

definition is_hex_color :: "pystr \<Rightarrow> bool" where
  "is_hex_color s \<longleftrightarrow> length s = 7 \<and> take 1 s = [35] \<and> list_all is_hex_digit (drop 1 s)"

text \<open>
  Concrete inputs: a 100 by 100 image and a block in a box 10 pixels wide at the origin;
  the fractions of the box are the floats nearest to the decimals.
\<close>

definition sample_image :: image where
  "sample_image = Image_new ''RGB'' 100 100 (ColorStr (str ''#000000''))"

definition sample_block :: "pystr \<Rightarrow> pystr \<Rightarrow> real \<Rightarrow> int \<Rightarrow> TextBlockPayload" where
  "sample_block t align bh sz =
     \<lparr>block_key = str ''title'', block_text = t,
      block_box = \<lparr>box_x = 0, box_y = 0, box_width = fl 0.1, box_height = fl bh\<rparr>,
      block_style = \<lparr>fontSize = sz, color = str ''#ffffff'', fontWeight = 400,
                     fontStyle = str ''normal'', textDecoration = str ''none'',
                     textAlign = align\<rparr>\<rparr>"

text \<open>
  Two blocks on the 100 by 100 image, in the box 10 pixels wide with font size 10: one
  whose text wraps into six lines in a box one line height tall, and one of two
  paragraphs in a box as tall as the image.
\<close>

definition six_line_block :: TextBlockPayload where
  "six_line_block = sample_block (str ''abcdef'') (str ''left'') 0.12 10"

definition two_paragraph_block :: "pystr \<Rightarrow> TextBlockPayload" where
  "two_paragraph_block a = sample_block (str ''a b'' @ [10] @ str ''c'') a 1 10"



text \<open>
  A word is a non-empty string without whitespace; \<open>non_space\<close> keeps the code points
  of a string that are not whitespace; a string is trimmed when it is empty or has no
  whitespace at either end.
\<close>

definition is_word :: "pystr \<Rightarrow> bool" where
  "is_word s \<longleftrightarrow> s \<noteq> [] \<and> list_all (\<lambda>c. \<not> isspace c) s"

definition non_space :: "pystr \<Rightarrow> pystr" where
  "non_space s = filter (\<lambda>c. \<not> isspace c) s"

definition trimmed :: "pystr \<Rightarrow> bool" where
  "trimmed s \<longleftrightarrow> s = [] \<or> (\<not> isspace (hd s) \<and> \<not> isspace (last s))"

text \<open>
  A font directory in which every name resolves to \<open>mono_file\<close>, and a layout request
  with positive dimensions whose second block has the font size 0.
\<close>

definition sample_dir :: font_dir where
  "sample_dir name = Inr mono_file"

definition zero_size_request :: LayoutRequest where
  "zero_size_request =
     \<lparr>lr_font = str ''demo.ttf'', lr_width = 100, lr_height = 100,
      lr_background = str ''#000000'', lr_format = str ''png'',
      lr_blocks = [sample_block (str ''a'') (str ''left'') 1 10,
                   sample_block (str ''b'') (str ''left'') 1 0],
      lr_respectLineBreaks = False\<rparr>"

section \<open>Properties of the line breaker\<close>

lemma split_run_all_space: "\<forall>c\<in>set s. isspace c \<Longrightarrow> split_run [] s = []"
  by (induction s) auto

lemma char_loop_ok:
  "char_loop f w t lines cur = (lines', cur') \<Longrightarrow> \<forall>l\<in>set lines. line_ok f w l \<Longrightarrow>
   cur = [] \<or> line_ok f w cur \<Longrightarrow>
   (\<forall>l\<in>set lines'. line_ok f w l) \<and> (cur' = [] \<or> line_ok f w cur')"
proof (induction t arbitrary: lines cur)
  case Nil
  then show ?case by simp
next
  case (Cons ch rest)
  show ?case
  proof (cases "measure_text f (cur @ [ch]) \<le> w \<or> cur = []")
    case True
    then have "char_loop f w rest lines (cur @ [ch]) = (lines', cur')"
      using Cons.prems(1) by (simp add: Let_def)
    moreover have "line_ok f w (cur @ [ch])"
      using True by (auto simp: line_ok_def)
    ultimately show ?thesis
      using Cons.IH Cons.prems(2) by blast
  next
    case False
    then have "char_loop f w rest (lines @ [cur]) [ch] = (lines', cur')"
      using Cons.prems(1) by (simp add: Let_def)
    moreover have "line_ok f w [ch]"
      by (simp add: line_ok_def)
    moreover have "\<forall>l\<in>set (lines @ [cur]). line_ok f w l"
      using Cons.prems(2,3) False by auto
    ultimately show ?thesis
      using Cons.IH by blast
  qed
qed

lemma word_loop_ok:
  "word_loop f w ws lines cur = (lines', cur') \<Longrightarrow> \<forall>l\<in>set lines. line_ok f w l \<Longrightarrow>
   cur = [] \<or> line_ok f w cur \<Longrightarrow>
   (\<forall>l\<in>set lines'. line_ok f w l) \<and> (cur' = [] \<or> line_ok f w cur')"
proof (induction ws arbitrary: lines cur)
  case Nil
  then show ?case by simp
next
  case (Cons word rest)
  let ?test = "strip (cur @ [32] @ word)"
  let ?lines1 = "if cur \<noteq> [] then lines @ [cur] else lines"
  have l1: "\<forall>l\<in>set ?lines1. line_ok f w l"
    using Cons.prems(2,3) by auto
  show ?case
  proof (cases "measure_text f ?test \<le> w")
    case True
    then have "word_loop f w rest lines ?test = (lines', cur')"
      using Cons.prems(1) by (simp add: Let_def)
    moreover have "line_ok f w ?test"
      using True by (simp add: line_ok_def)
    ultimately show ?thesis
      using Cons.IH Cons.prems(2) by blast
  next
    case False
    show ?thesis
    proof (cases "measure_text f word \<le> w")
      case True
      then have "word_loop f w rest ?lines1 word = (lines', cur')"
        using Cons.prems(1) False by (simp add: Let_def)
      moreover have "line_ok f w word"
        using True by (simp add: line_ok_def)
      ultimately show ?thesis
        using Cons.IH l1 by blast
    next
      case wide: False
      obtain lines2 chunk where cl: "char_loop f w word ?lines1 [] = (lines2, chunk)"
        by (cases "char_loop f w word ?lines1 []") auto
      then have "word_loop f w rest lines2 chunk = (lines', cur')"
        using Cons.prems(1) False wide by (simp add: Let_def)
      moreover have "(\<forall>l\<in>set lines2. line_ok f w l) \<and> (chunk = [] \<or> line_ok f w chunk)"
        using char_loop_ok[OF cl l1] by simp
      ultimately show ?thesis
        using Cons.IH by blast
    qed
  qed
qed

lemma flush_ok:
  "\<forall>l\<in>set (fst st). line_ok f w l \<Longrightarrow> snd st = [] \<or> line_ok f w (snd st) \<Longrightarrow>
   \<forall>l\<in>set (flush st). line_ok f w l"
  by (auto simp: flush_def split: prod.splits)

text \<open>
  C1. For every paragraph and every width \<open>w > 0\<close>, every line that \<open>wrap_text_lines\<close>
  returns has measured advance width at most \<open>w\<close> or is a single character; so no line
  of two or more characters is wider than \<open>w\<close>. The measurement is any function that
  gives the empty string the advance width 0, as a font does: the empty paragraph
  yields the empty line.
\<close>

theorem wrap_text_lines_fit:
  assumes "0 < w" and "textlength f [] = 0" and "l \<in> set (wrap_text_lines f p w)"
  shows "measure_text f l \<le> w \<or> length l = 1"
proof -
  have e: "line_ok f w []"
    using assms(1,2) by (simp add: line_ok_def measure_text_def)
  have "\<forall>l\<in>set (wrap_text_lines f p w). line_ok f w l"
  proof (cases "p = []")
    case True
    then show ?thesis
      using e by (simp add: wrap_text_lines_def)
  next
    case False
    show ?thesis
    proof (cases "list_ex isspace p")
      case True
      obtain ls c where s: "word_loop f w (split p) [] [] = (ls, c)"
        by (cases "word_loop f w (split p) [] []") auto
      from word_loop_ok[OF s]
      have "(\<forall>l\<in>set ls. line_ok f w l) \<and> (c = [] \<or> line_ok f w c)"
        by simp
      then show ?thesis
        using False True s flush_ok[of "(ls, c)" f w] by (simp add: wrap_text_lines_def)
    next
      case nospace: False
      obtain ls c where s: "char_loop f w p [] [] = (ls, c)"
        by (cases "char_loop f w p [] []") auto
      from char_loop_ok[OF s]
      have "(\<forall>l\<in>set ls. line_ok f w l) \<and> (c = [] \<or> line_ok f w c)"
        by simp
      then show ?thesis
        using False nospace s flush_ok[of "(ls, c)" f w] by (simp add: wrap_text_lines_def)
    qed
  qed
  then show ?thesis
    using assms(3) by (simp add: line_ok_def)
qed

theorem wrap_text_lines_fit_witness:
  "(0::real) < 3 \<and> textlength (mono_font 1) [] = 0 \<and>
   str ''abc'' \<in> set (wrap_text_lines (mono_font 1) (str ''abcdefg'') 3) \<and>
   (measure_text (mono_font 1) (str ''abc'') \<le> 3 \<or> length (str ''abc'') = 1)"
proof -
  have h: "str ''abc'' \<in> set (wrap_text_lines (mono_font 1) (str ''abcdefg'') 3)"
    by (simp add: wrap_text_lines_def str_def isspace_def flush_def mono_font_def
        measure_text_def)
  have z: "textlength (mono_font 1) [] = 0"
    by (simp add: mono_font_def)
  show ?thesis
    using wrap_text_lines_fit[of 3 "mono_font 1" "str ''abc''" "str ''abcdefg''", OF _ z h] h z
    by simp
qed

text \<open>
  C10. A non-empty paragraph made of whitespace only gives no line at all, whereas the
  empty paragraph gives one empty line. In wrap mode the loop over the paragraphs
  therefore draws nothing for it and moves the cursor by the gap between paragraphs
  only (and not at all when it is the last paragraph).
\<close>

theorem whitespace_paragraph_no_lines:
  assumes "p \<noteq> []" and "\<forall>c\<in>set p. isspace c"
  shows "wrap_text_lines f p w = [] \<and> wrap_text_lines f [] w = [[]] \<and>
         draw_paragraphs v idx n (p # rest) cursor_y img =
           draw_paragraphs v (idx + 1) n rest
             (if int idx < int n - 1
              then fadd cursor_y (fmul (v_line_height v) (fl 0.2)) else cursor_y) img"
proof -
  have ex: "list_ex isspace p"
    using assms by (cases p) (auto simp: list_ex_iff)
  have w: "\<And>g m. wrap_text_lines g p m = []"
    using assms(1) ex assms(2)
    by (simp add: wrap_text_lines_def split_def split_run_all_space flush_def)
  show ?thesis
    using w by (simp add: wrap_text_lines_def)
qed

theorem whitespace_paragraph_no_lines_witness:
  "str ''  '' \<noteq> [] \<and> list_all isspace (str ''  '') \<and>
   wrap_text_lines (mono_font 1) (str ''  '') 5 = [] \<and>
   wrap_text_lines (mono_font 1) [] 5 = [[]]"
proof -
  have a: "str ''  '' \<noteq> []"
    by (simp add: str_def)
  have b: "\<forall>c\<in>set (str ''  ''). isspace c"
    by (simp add: str_def isspace_def)
  show ?thesis
    using whitespace_paragraph_no_lines[OF a b, of "mono_font 1" 5] a b
    by (simp add: list_all_iff)
qed

section \<open>Rejoining the lines\<close>

lemma split_run_append_space:
  "isspace c \<Longrightarrow> split_run cur (a @ c # b) = split_run cur a @ split_run [] b"
  by (induction a arbitrary: cur) auto

lemma split_run_word:
  "list_all (\<lambda>c. \<not> isspace c) s \<Longrightarrow> cur @ s \<noteq> [] \<Longrightarrow> split_run cur s = [cur @ s]"
  by (induction s arbitrary: cur) auto

lemma split_word: "is_word s \<Longrightarrow> split s = [s]"
  by (simp add: is_word_def split_def split_run_word)

lemma split_run_words:
  "list_all (\<lambda>c. \<not> isspace c) cur \<Longrightarrow> list_all is_word (split_run cur s)"
  by (induction s arbitrary: cur) (auto simp: is_word_def)

lemma split_words: "list_all is_word (split s)"
  by (simp add: split_def split_run_words)

lemma split_append_space: "split (a @ 32 # b) = split a @ split b"
  by (simp add: split_def split_run_append_space isspace_def)

lemma split_join_space: "split (join_space ls) = concat (map split ls)"
proof (induction ls rule: join_space.induct)
  case 1
  then show ?case by (simp add: split_def)
next
  case (2 l)
  then show ?case by simp
next
  case (3 l v va)
  then show ?case by (simp add: split_append_space)
qed

lemma concat_split_run: "concat (split_run cur s) = cur @ non_space s"
  by (induction s arbitrary: cur) (auto simp: non_space_def)

lemma concat_split: "concat (split s) = non_space s"
  by (simp add: split_def concat_split_run)

lemma non_space_dropWhile: "non_space (dropWhile isspace s) = non_space s"
  by (induction s) (auto simp: non_space_def)

lemma non_space_rev: "non_space (rev s) = rev (non_space s)"
  by (simp add: non_space_def rev_filter)

lemma non_space_strip: "non_space (strip s) = non_space s"
  by (simp add: strip_def non_space_rev[symmetric] non_space_dropWhile)
   (simp add: non_space_rev non_space_dropWhile)

lemma non_space_word: "is_word s \<Longrightarrow> non_space s = s"
  by (simp add: is_word_def non_space_def list_all_iff)

lemma non_space_append: "non_space (a @ b) = non_space a @ non_space b"
  by (simp add: non_space_def)

lemma non_space_join: "non_space (join_space ls) = non_space (concat ls)"
  by (induction ls rule: join_space.induct) (auto simp: non_space_def isspace_def)

lemma word_trimmed: "is_word s \<Longrightarrow> trimmed s"
  by (cases s) (auto simp: is_word_def trimmed_def list_all_iff)

lemma dropWhile_hd: "s \<noteq> [] \<Longrightarrow> \<not> P (hd s) \<Longrightarrow> dropWhile P s = s"
  by (cases s) auto

lemma strip_trimmed: "trimmed s \<Longrightarrow> strip s = s"
proof (cases "s = []")
  case True
  then show ?thesis by (simp add: strip_def)
next
  case False
  assume "trimmed s"
  then have h: "\<not> isspace (hd s)" and l: "\<not> isspace (last s)"
    using False by (simp_all add: trimmed_def)
  have "dropWhile isspace s = s"
    using False h by (rule dropWhile_hd)
  moreover have "dropWhile isspace (rev s) = rev s"
    using False l by (intro dropWhile_hd) (simp_all add: hd_rev)
  ultimately show ?thesis
    by (simp add: strip_def)
qed

lemma strip_test:
  assumes "trimmed cur" and "is_word word"
  shows "strip (cur @ 32 # word) = (if cur = [] then word else cur @ 32 # word)"
proof (cases "cur = []")
  case True
  have "strip (32 # word) = strip word"
    by (simp add: strip_def isspace_def)
  then show ?thesis
    using True assms(2) by (simp add: strip_trimmed word_trimmed)
next
  case False
  have w: "word \<noteq> []" "\<not> isspace (last word)"
    using assms(2) by (auto simp: is_word_def list_all_iff)
  have "trimmed (cur @ 32 # word)"
    using False assms(1) w by (simp add: trimmed_def)
  then show ?thesis
    using False by (simp add: strip_trimmed)
qed

lemma trimmed_test:
  assumes "trimmed cur" and "is_word word"
  shows "trimmed (strip (cur @ 32 # word))"
proof (cases "cur = []")
  case True
  then show ?thesis
    using strip_test[OF assms] word_trimmed[OF assms(2)] by simp
next
  case False
  have w: "word \<noteq> []" "\<not> isspace (last word)"
    using assms(2) by (auto simp: is_word_def list_all_iff)
  have "trimmed (cur @ 32 # word)"
    using False assms(1) w by (simp add: trimmed_def)
  then show ?thesis
    using False strip_test[OF assms] by simp
qed

lemma split_test:
  assumes "trimmed cur" and "is_word word"
  shows "split (strip (cur @ 32 # word)) = split cur @ [word]"
proof (cases "cur = []")
  case True
  then show ?thesis
    using strip_test[OF assms] split_word[OF assms(2)] by (simp add: split_def)
next
  case False
  then show ?thesis
    using strip_test[OF assms] split_word[OF assms(2)] by (simp add: split_append_space)
qed

lemma word_loop_words:
  "word_loop f w ws lines cur = (lines', cur') \<Longrightarrow> list_all is_word ws \<Longrightarrow>
   list_all (\<lambda>x. measure_text f x \<le> w) ws \<Longrightarrow> trimmed cur \<Longrightarrow>
   concat (map split lines') @ split cur' = concat (map split lines) @ split cur @ ws"
proof (induction ws arbitrary: lines cur)
  case Nil
  then show ?case by simp
next
  case (Cons word rest)
  let ?test = "strip (cur @ 32 # word)"
  let ?lines1 = "if cur \<noteq> [] then lines @ [cur] else lines"
  have wd: "is_word word" and fit: "measure_text f word \<le> w"
    and rest: "list_all is_word rest" "list_all (\<lambda>x. measure_text f x \<le> w) rest"
    using Cons.prems(2,3) by simp_all
  show ?case
  proof (cases "measure_text f ?test \<le> w")
    case True
    then have "word_loop f w rest lines ?test = (lines', cur')"
      using Cons.prems(1) by (simp add: Let_def)
    from Cons.IH[OF this rest trimmed_test[OF Cons.prems(4) wd]]
    show ?thesis
      by (simp add: split_test[OF Cons.prems(4) wd])
  next
    case False
    then have "word_loop f w rest ?lines1 word = (lines', cur')"
      using Cons.prems(1) fit by (simp add: Let_def)
    from Cons.IH[OF this rest word_trimmed[OF wd]]
    have "concat (map split lines') @ split cur' =
        concat (map split ?lines1) @ split word @ rest" .
    moreover have "concat (map split ?lines1) = concat (map split lines) @ split cur"
      by (simp add: split_def)
    ultimately show ?thesis
      by (simp add: split_word[OF wd])
  qed
qed

lemma char_loop_concat:
  "char_loop f w t lines cur = (lines', cur') \<Longrightarrow>
   concat lines' @ cur' = concat lines @ cur @ t"
proof (induction t arbitrary: lines cur)
  case Nil
  then show ?case by simp
next
  case (Cons ch rest)
  show ?case
  proof (cases "measure_text f (cur @ [ch]) \<le> w \<or> cur = []")
    case True
    then have "char_loop f w rest lines (cur @ [ch]) = (lines', cur')"
      using Cons.prems by (simp add: Let_def)
    from Cons.IH[OF this] show ?thesis by simp
  next
    case False
    then have "char_loop f w rest (lines @ [cur]) [ch] = (lines', cur')"
      using Cons.prems by (simp add: Let_def)
    from Cons.IH[OF this] show ?thesis by simp
  qed
qed

lemma word_loop_non_space:
  "word_loop f w ws lines cur = (lines', cur') \<Longrightarrow> list_all is_word ws \<Longrightarrow>
   non_space (concat lines' @ cur') = non_space (concat lines @ cur) @ concat ws"
proof (induction ws arbitrary: lines cur)
  case Nil
  then show ?case by simp
next
  case (Cons word rest)
  let ?test = "strip (cur @ 32 # word)"
  let ?lines1 = "if cur \<noteq> [] then lines @ [cur] else lines"
  have wd: "is_word word" and rest: "list_all is_word rest"
    using Cons.prems(2) by simp_all
  have sp: "\<And>s. non_space (32 # s) = non_space s"
    by (simp add: non_space_def isspace_def)
  have l1: "concat ?lines1 = concat lines @ cur"
    by simp
  show ?case
  proof (cases "measure_text f ?test \<le> w")
    case True
    then have "word_loop f w rest lines ?test = (lines', cur')"
      using Cons.prems(1) by (simp add: Let_def)
    from Cons.IH[OF this rest]
    show ?thesis
      by (simp add: non_space_append non_space_strip sp non_space_word[OF wd])
  next
    case False
    show ?thesis
    proof (cases "measure_text f word \<le> w")
      case True
      then have "word_loop f w rest ?lines1 word = (lines', cur')"
        using Cons.prems(1) False by (simp add: Let_def)
      from Cons.IH[OF this rest]
      have "non_space (concat lines' @ cur') = non_space (concat ?lines1 @ word) @ concat rest" .
      then show ?thesis
        unfolding l1 by (simp add: non_space_append non_space_word[OF wd])
    next
      case wide: False
      obtain lines2 chunk where cl: "char_loop f w word ?lines1 [] = (lines2, chunk)"
        by (cases "char_loop f w word ?lines1 []") auto
      then have "word_loop f w rest lines2 chunk = (lines', cur')"
        using Cons.prems(1) False wide by (simp add: Let_def)
      from Cons.IH[OF this rest]
      have "non_space (concat lines' @ cur') = non_space (concat lines2 @ chunk) @ concat rest" .
      moreover have "concat lines2 @ chunk = concat lines @ cur @ word"
        using char_loop_concat[OF cl] l1 by simp
      ultimately show ?thesis
        by (simp add: non_space_append non_space_word[OF wd])
    qed
  qed
qed

lemma concat_flush: "concat (flush (ls, c)) = concat ls @ c"
  by (simp add: flush_def)

lemma split_flush: "concat (map split (flush (ls, c))) = concat (map split ls) @ split c"
  by (simp add: flush_def split_def)

text \<open>
  C2 as the code has it. For a paragraph that contains whitespace: when each of its
  words fits the width on its own, the lines joined with single spaces split into
  exactly the words of the paragraph, in order. In every case the joined lines have
  the non-whitespace characters of the paragraph, in order, none dropped and none
  repeated; a word wider than the box is cut into several lines.
\<close>

theorem reconstruction_when_words_fit:
  assumes "list_ex isspace p"
  shows "(list_all (\<lambda>word. measure_text f word \<le> w) (split p) \<longrightarrow>
            split (join_space (wrap_text_lines f p w)) = split p) \<and>
         non_space (join_space (wrap_text_lines f p w)) = non_space p"
proof -
  have ne: "p \<noteq> []"
    using assms by auto
  obtain ls c where s: "word_loop f w (split p) [] [] = (ls, c)"
    by (cases "word_loop f w (split p) [] []") auto
  have wr: "wrap_text_lines f p w = flush (ls, c)"
    using ne assms s by (simp add: wrap_text_lines_def)
  have tr: "trimmed []"
    by (simp add: trimmed_def)
  have a: "list_all (\<lambda>word. measure_text f word \<le> w) (split p) \<longrightarrow>
            split (join_space (wrap_text_lines f p w)) = split p"
  proof
    assume "list_all (\<lambda>word. measure_text f word \<le> w) (split p)"
    from word_loop_words[OF s split_words this tr]
    show "split (join_space (wrap_text_lines f p w)) = split p"
      by (simp add: wr split_join_space split_flush) (simp add: split_def)
  qed
  have b: "non_space (join_space (wrap_text_lines f p w)) = non_space p"
    using word_loop_non_space[OF s split_words]
    by (simp add: wr non_space_join concat_flush concat_split) (simp add: non_space_def)
  show ?thesis
    using a b by simp
qed

theorem reconstruction_when_words_fit_witness:
  "list_ex isspace (str ''a b'') \<and>
   list_all (\<lambda>word. measure_text (mono_font 1) word \<le> 1) (split (str ''a b'')) \<and>
   split (join_space (wrap_text_lines (mono_font 1) (str ''a b'') 1)) = [str ''a'', str ''b'']"
proof -
  have a: "list_ex isspace (str ''a b'')"
    by (simp add: str_def isspace_def)
  have b: "list_all (\<lambda>word. measure_text (mono_font 1) word \<le> 1) (split (str ''a b''))"
    by (simp add: str_def isspace_def split_def mono_font_def measure_text_def)
  have c: "split (str ''a b'') = [str ''a'', str ''b'']"
    by (simp add: str_def isspace_def split_def)
  show ?thesis
    using reconstruction_when_words_fit[OF a, of "mono_font 1" 1] a b c by simp
qed

text \<open>
  C2 as stated fails: at width 1 with one pixel per character, \<open>ab c\<close> is broken
  into \<open>a\<close>, \<open>b\<close>, \<open>c\<close>, and the word \<open>ab\<close> is not among the words of the joined lines.
\<close>

theorem reconstruction_counterexample:
  "list_ex isspace (str ''ab c'') \<and>
   split (join_space (wrap_text_lines (mono_font 1) (str ''ab c'') 1)) =
     [str ''a'', str ''b'', str ''c''] \<and>
   split (str ''ab c'') = [str ''ab'', str ''c''] \<and>
   split (join_space (wrap_text_lines (mono_font 1) (str ''ab c'') 1)) \<noteq> split (str ''ab c'')"
  by (simp add: wrap_text_lines_def str_def isspace_def split_def strip_def flush_def
      mono_font_def measure_text_def)

section \<open>Evaluation on the concrete inputs\<close>

lemma load_mono_file_10: "load_font mono_file 10 = Inr (mono_font 10)"
  by (simp add: load_font_def mono_file_def)


lemma split_on_sample: "split_on 10 (str ''a b'' @ [10] @ str ''c'') = [str ''a b'', str ''c'']"
  by (simp add: split_on_def str_def)

lemma wrap_a_b: "wrap_text_lines (mono_font 10) (str ''a b'') 10 = [str ''a'', str ''b'']"
  by (simp add: wrap_text_lines_def str_def isspace_def flush_def mono_font_def measure_text_def
      split_def strip_def)

lemma wrap_c: "wrap_text_lines (mono_font 10) (str ''c'') 10 = [str ''c'']"
  by (simp add: wrap_text_lines_def str_def isspace_def flush_def mono_font_def measure_text_def)

section \<open>Properties of one styled line\<close>

lemma draw_line_with_style_ops:
  "draw_line_with_style base t x y f col u b i lh =
     base\<lparr>img_ops := img_ops base @ line_ops t x y f col u b i lh\<rparr>"
  by (simp add: draw_line_with_style_def line_ops_def draw_def Let_def Image_new_def)

text \<open>
  C7. Without italic, the text is stamped at \<open>(x, y)\<close>, \<open>(x + 1, y)\<close> and \<open>(x, y + 1)\<close>
  in the requested colour when bold, and once at \<open>(x, y)\<close> otherwise; these stamps are
  all that is drawn before the underline. With italic, one sheared buffer is pasted,
  and the text was stamped into that buffer in the requested colour at the offsets
  \<open>(0, 0)\<close>, \<open>(1, 0)\<close>, \<open>(0, 1)\<close> when bold and at \<open>(0, 0)\<close> otherwise.
\<close>

theorem bold_stamping:
  "img_ops (draw_line_with_style base t x y f col underline bold False lh) =
     img_ops base @
     (if bold then [DrawText x y t col, DrawText (x + 1) y t col, DrawText x (y + 1) t col]
      else [DrawText x y t col]) @
     (if underline
      then [DrawLine x (y + lh * 0.85) (x + measure_text f t) (y + lh * 0.85) col
              (max 1 (py_int (lh * 0.06)))]
      else [])
   \<and> (\<exists>tr. img_ops (draw_line_with_style base t x y f col underline bold True lh) =
           img_ops base @ [Paste (py_int x) (py_int y) tr] @
           (if underline
            then [DrawLine x (y + lh * 0.85) (x + measure_text f t) (y + lh * 0.85) col
                    (max 1 (py_int (lh * 0.06)))]
            else []) \<and>
         temp_text (tr_source tr) = t \<and> temp_fill (tr_source tr) = col \<and>
         temp_stamps (tr_source tr) = (if bold then [(0, 0), (1, 0), (0, 1)] else [(0, 0)]))"
  by (simp add: draw_line_with_style_def draw_def Let_def)

text \<open>
  C6 as the code has it. With underline, the call draws what it draws without underline
  and then one rule from \<open>x\<close> to \<open>x\<close> plus the measured advance width at height
  \<open>y + 0.85 \<times> line_height\<close>, in the colour of the line, for every combination of bold
  and italic; nothing else it draws is a rule. The thickness is
  \<open>max(1, int(0.06 \<times> line_height))\<close>: the product is truncated, not rounded.
\<close>

theorem underline_rule:
  "\<exists>glyphs.
     img_ops (draw_line_with_style base t x y f col False bold italic lh) = img_ops base @ glyphs \<and>
     img_ops (draw_line_with_style base t x y f col True bold italic lh) =
       img_ops base @ glyphs @
       [DrawLine x (y + 0.85 * lh) (x + measure_text f t) (y + 0.85 * lh) col
          (max 1 (py_int (0.06 * lh)))] \<and>
     filter is_rule glyphs = []"
  by (simp add: draw_line_with_style_def draw_def Let_def is_rule_def mult.commute)

text \<open>
  C6 as stated fails on the thickness: at line height 30 (font size 25) the rule is
  1 pixel thick, and rounding 1.8 would give 2.
\<close>

theorem underline_width_counterexample:
  "last (img_ops (draw_line_with_style (Image_new ''RGB'' 100 100 (ColorStr (str ''#000000'')))
      (str ''a'') 0 0 (mono_font 25) (str ''#ffffff'') True False False 30)) =
     DrawLine 0 25.5 25 25.5 (str ''#ffffff'') 1
   \<and> max 1 (round (0.06 * 30 :: real)) = (2::int)"
  by (simp add: draw_line_with_style_def draw_def Let_def Image_new_def mono_font_def measure_text_def py_int_def str_def round_def)

section \<open>Properties of the preview renderer\<close>

text \<open>
  C8 as the code has it. When the font loads, the preview image has the requested size;
  it is transparent RGBA whenever the format is \<open>png\<close>, whatever background was
  requested, and RGB filled with the requested background for every other format.
\<close>

theorem preview_canvas_fill:
  assumes "load_font font_path sz = Inr f"
  shows "\<exists>img. draw_text_preview font_path t sz width height padding col background image_format = Inr img \<and>
     img_width img = width \<and> img_height img = height \<and>
     img_color img = (if lower image_format = str ''png'' then ColorTuple 0 0 0 0 else ColorStr background) \<and>
     img_mode img = (if lower image_format = str ''png'' then ''RGBA'' else ''RGB'')"
  using assms
  by (auto simp: draw_text_preview_def Let_def draw_def Image_new_def split: prod.splits)

theorem preview_canvas_fill_witness:
  "load_font mono_file 10 = Inr (mono_font 10) \<and>
   (\<exists>img. draw_text_preview mono_file (str ''Aa'') 10 100 50 5 (str ''#111827'') (str ''#ff0000'')
             (str ''webp'') = Inr img \<and>
          img_color img = ColorStr (str ''#ff0000'') \<and> img_mode img = ''RGB'')"
  using preview_canvas_fill[OF load_mono_file_10, of "str ''Aa''" 100 50 5 "str ''#111827''"
      "str ''#ff0000''" "str ''webp''"] load_mono_file_10
  by (auto simp: lower_def str_def)

text \<open>
  C8 as stated fails: a \<open>png\<close> preview requested with the background \<open>#ff0000\<close> is
  transparent, not filled with that background.
\<close>

theorem preview_canvas_counterexample:
  "\<exists>img. draw_text_preview mono_file (str ''Aa'') 10 100 50 5 (str ''#111827'') (str ''#ff0000'') (str ''png'') = Inr img \<and>
     img_color img = ColorTuple 0 0 0 0 \<and> img_color img \<noteq> ColorStr (str ''#ff0000'')"
  by (simp add: draw_text_preview_def Let_def draw_def Image_new_def load_font_def mono_file_def mono_font_def lower_def str_def)

section \<open>Properties of block layout\<close>

lemma advance_0 [simp]: "advance lh 0 cy = cy"
  by (simp add: advance_def)

lemma advance_Suc: "advance lh (Suc n) cy = advance lh n (fadd cy lh)"
  by (simp add: advance_def funpow_Suc_right del: funpow.simps)

lemma length_line_positions [simp]: "length (spec_line_positions lh cy ls) = length ls"
  by (induction ls arbitrary: cy) auto

lemma nth_line_positions:
  "k < length ls \<Longrightarrow> spec_line_positions lh cy ls ! k = (ls ! k, advance lh k cy)"
proof (induction ls arbitrary: cy k)
  case Nil
  then show ?case by simp
next
  case (Cons l ls)
  then show ?case by (cases k) (auto simp: advance_Suc)
qed

lemma draw_lines_plan:
  "draw_lines v ls cy img =
     (let drawn = takeWhile (fits v) (spec_line_positions (v_line_height v) cy ls)
      in (length drawn < length ls, advance (v_line_height v) (length drawn) cy,
          img\<lparr>img_ops := img_ops img @ concat (map (placed v) drawn)\<rparr>))"
proof (induction ls arbitrary: cy img)
  case Nil
  then show ?case by simp
next
  case (Cons l ls)
  show ?case
  proof (cases "fits v (l, cy)")
    case True
    then have "\<not> fadd cy (v_line_height v) > fadd (v_y v) (v_h v)"
      by (simp add: fits_def)
    then show ?thesis
      using True Cons.IH
      by (simp add: Let_def draw_line_with_style_ops placed_def advance_Suc)
  next
    case False
    then have "fadd cy (v_line_height v) > fadd (v_y v) (v_h v)"
      by (simp add: fits_def)
    then show ?thesis
      using False by simp
  qed
qed

lemma draw_paragraphs_plan:
  "idx + length ps = n \<Longrightarrow>
   draw_paragraphs v idx n ps cy img =
     img\<lparr>img_ops := img_ops img @
       concat (map (placed v)
         (takeWhile (fits v) (spec_wrap_plan (v_font v) (v_w v) (v_line_height v) cy ps)))\<rparr>"
proof (induction ps arbitrary: idx cy img)
  case Nil
  then show ?case by simp
next
  case (Cons p ps)
  let ?ls = "wrap_text_lines (v_font v) p (v_w v)"
  let ?A = "spec_line_positions (v_line_height v) cy ?ls"
  let ?drawn = "takeWhile (fits v) ?A"
  let ?next = "if ps = [] then advance (v_line_height v) (length ?ls) cy
               else fadd (advance (v_line_height v) (length ?ls) cy)
                      (fmul (v_line_height v) (fl 0.2))"
  show ?case
  proof (cases "length ?drawn < length ?ls")
    case True
    then have "\<not> (\<forall>x\<in>set ?A. fits v x)"
      by (metis length_line_positions nat_neq_iff takeWhile_eq_all_conv)
    then obtain x where x: "x \<in> set ?A" "\<not> fits v x"
      by blast
    have "takeWhile (fits v) (?A @ spec_wrap_plan (v_font v) (v_w v) (v_line_height v) ?next ps) =
        ?drawn"
      using x by (simp add: takeWhile_append1[where P="fits v"])
    then show ?thesis
      using True by (simp add: draw_lines_plan Let_def)
  next
    case False
    have "length ?drawn \<le> length ?A"
      by (rule length_takeWhile_le)
    then have "length ?drawn = length ?A"
      using False by simp
    then have d: "?drawn = ?A"
      by (metis takeWhile_eq_take take_all order_refl)
    then have all: "\<forall>x\<in>set ?A. fits v x"
      by (metis set_takeWhileD)
    have idx: "(int idx < int n - 1) = (ps \<noteq> [])"
      using Cons.prems by (cases ps) auto
    have n: "Suc idx + length ps = n"
      using Cons.prems by simp
    have tw: "\<And>B. takeWhile (fits v) (?A @ B) = ?A @ takeWhile (fits v) B"
      using all by (simp add: takeWhile_append2)
    have dl: "draw_lines v ?ls cy img =
        (False, advance (v_line_height v) (length ?ls) cy,
         img\<lparr>img_ops := img_ops img @ concat (map (placed v) ?A)\<rparr>)"
      by (simp add: draw_lines_plan Let_def d)
    show ?thesis
      by (simp add: dl idx Cons.IH[OF n] tw)
  qed
qed

lemma draw_layout_text_plan:
  assumes "load_font fp (fontSize (block_style b)) = Inr f"
  shows "draw_layout_text img b fp r =
     Inr (img\<lparr>img_ops := img_ops img @
       concat (map (placed (layout_locals img b f))
         (takeWhile (fits (layout_locals img b f))
            (spec_layout_plan (layout_locals img b f) (block_text b) r)))\<rparr>)"
  using assms
  by (simp add: draw_layout_text_def Let_def draw_lines_plan draw_paragraphs_plan spec_layout_plan_def)





subsection \<open>Float arithmetic on the concrete inputs\<close>

lemma sample_floats:
  "fmul (fl 10) (fl (6 / 5)) = 12"
  "fmul 0 (fl 100) = 0"
  "fmul (fl (1 / 10)) (fl 100) = 10"
  "fmul (fl (3 / 25)) (fl 100) = 12"
  "fmul (fl 1) (fl 100) = 100"
  "fadd 0 12 = 12"
  "fadd 12 12 = 24"
  "fadd 0 100 = 100"
  "fmul 12 (fl (1 / 5)) = 1351079888211149 / 562949953421312"
  "fadd 24 (1351079888211149 / 562949953421312) = 3715469692580659 / 140737488355328"
  "fadd (3715469692580659 / 140737488355328) 12 = 5404319552844595 / 140737488355328"
  "fsub 10 30 = - 20"
  "fdiv (- 20) 2 = - 10"
  "fadd 0 (- 10) = - 10"
  "fsub 10 10 = 0"
  "fdiv 0 2 = 0"
  "fadd 0 0 = 0"
  by code_simp+


lemmas sample_defs = sample_image_def sample_block_def Image_new_def layout_locals_def str_def
  six_line_block_def two_paragraph_block_def


lemma two_paragraph_locals:
  "v_w (layout_locals sample_image (two_paragraph_block a) (mono_font 10)) = 10"
  "v_line_height (layout_locals sample_image (two_paragraph_block a) (mono_font 10)) = 12"
  "v_h (layout_locals sample_image (two_paragraph_block a) (mono_font 10)) = 100"
  "v_y (layout_locals sample_image (two_paragraph_block a) (mono_font 10)) = 0"
  "v_x (layout_locals sample_image (two_paragraph_block a) (mono_font 10)) = 0"
  "v_font (layout_locals sample_image (two_paragraph_block a) (mono_font 10)) = mono_font 10"
  "v_color (layout_locals sample_image (two_paragraph_block a) (mono_font 10)) = str ''#ffffff''"
  "v_underline (layout_locals sample_image (two_paragraph_block a) (mono_font 10)) = False"
  "v_bold (layout_locals sample_image (two_paragraph_block a) (mono_font 10)) = False"
  "v_italic (layout_locals sample_image (two_paragraph_block a) (mono_font 10)) = False"
  by (simp_all add: sample_defs sample_floats)


lemma plain_line_ops:
  "line_ops l x cy f col False False False lh = [DrawText x cy l col]"
  by (simp add: line_ops_def draw_line_with_style_def draw_def Let_def Image_new_def)




lemma six_line_facts:
  "fontSize (block_style six_line_block) = 10"
  "block_text six_line_block = str ''abcdef''"
  "is_hex_color (color (block_style six_line_block))"
  "img_ops sample_image = []"
  by (simp_all add: sample_defs is_hex_color_def is_hex_digit_def)


lemma two_paragraph_facts:
  "fontSize (block_style (two_paragraph_block a)) = 10"
  "block_text (two_paragraph_block a) = str ''a b'' @ [10] @ str ''c''"
  "color (block_style (two_paragraph_block a)) = str ''#ffffff''"
  "textAlign (block_style (two_paragraph_block a)) = a"
  by (simp_all add: two_paragraph_block_def sample_block_def)

lemma split_on_two_paragraphs:
  "split_on 10 (str ''a b'' @ 10 # str ''c'') = [str ''a b'', str ''c'']"
  using split_on_sample by simp

lemma two_paragraph_fits:
  "fits (layout_locals sample_image (two_paragraph_block a) (mono_font 10)) lc =
     (fadd (snd lc) 12 \<le> 100)"
  by (simp add: fits_def two_paragraph_locals sample_floats)

subsection \<open>Clipping, spacing and alignment\<close>




text \<open>
  C4. In wrap mode the block draws the lines of \<open>spec_wrap_plan\<close> up to the first that does
  not fit: the lines of each paragraph one line height apart, and 0.2 line heights more
  after each paragraph except the last. In \<open>respectLineBreaks\<close> mode it draws the
  segments between newlines themselves, up to the first that does not fit: segment
  \<open>k\<close> is one line, at the cursor reached from \<open>y\<close> by \<open>k\<close> additions of the line height,
  unwrapped and with no further gap.
\<close>

theorem paragraph_gap_and_line_breaks:
  assumes "load_font fp (fontSize (block_style b)) = Inr f"
    and "v = layout_locals img b f"
    and "segs = split_on 10 (block_text b)"
  shows "draw_layout_text img b fp False =
           Inr (img\<lparr>img_ops := img_ops img @ concat (map (placed v)
             (takeWhile (fits v) (spec_wrap_plan f (v_w v) (v_line_height v) (v_y v) segs)))\<rparr>) \<and>
         draw_layout_text img b fp True =
           Inr (img\<lparr>img_ops := img_ops img @ concat (map (placed v)
             (takeWhile (fits v) (spec_line_positions (v_line_height v) (v_y v) segs)))\<rparr>) \<and>
         length (spec_line_positions (v_line_height v) (v_y v) segs) = length segs \<and>
         (\<forall>k<length segs. spec_line_positions (v_line_height v) (v_y v) segs ! k =
            (segs ! k, advance (v_line_height v) k (v_y v)))"
proof -
  have vf: "v_font v = f"
    using assms(2) by (simp add: layout_locals_def)
  show ?thesis
    using draw_layout_text_plan[OF assms(1), of img False]
      draw_layout_text_plan[OF assms(1), of img True] assms(2,3) vf
    by (simp add: spec_layout_plan_def nth_line_positions)
qed

theorem paragraph_gap_and_line_breaks_witness:
  "load_font mono_file 10 = Inr (mono_font 10) \<and>
   draw_layout_text sample_image (two_paragraph_block (str ''left'')) mono_file False =
     Inr (sample_image\<lparr>img_ops :=
       [DrawText 0 0 (str ''a'') (str ''#ffffff''), DrawText 0 12 (str ''b'') (str ''#ffffff''),
        DrawText 0 (3715469692580659 / 140737488355328) (str ''c'') (str ''#ffffff'')]\<rparr>) \<and>
   draw_layout_text sample_image (two_paragraph_block (str ''left'')) mono_file True =
     Inr (sample_image\<lparr>img_ops :=
       [DrawText 0 0 (str ''a b'') (str ''#ffffff''),
        DrawText 0 12 (str ''c'') (str ''#ffffff'')]\<rparr>)"
proof -
  let ?b = "two_paragraph_block (str ''left'')"
  let ?v = "layout_locals sample_image ?b (mono_font 10)"
  have load: "load_font mono_file (fontSize (block_style ?b)) = Inr (mono_font 10)"
    using load_mono_file_10 by (simp add: two_paragraph_facts)
  have al: "v_align ?v = str ''left''"
    by (simp add: sample_defs)
  have ne: "str ''left'' \<noteq> str ''center''" "str ''left'' \<noteq> str ''right''"
    by (simp_all add: str_def)
  have pl: "\<And>l cy. placed ?v (l, cy) = [DrawText 0 cy l (str ''#ffffff'')]"
    by (simp add: placed_def two_paragraph_locals al ne plain_line_ops)
  note th = paragraph_gap_and_line_breaks[OF load refl refl, of sample_image]
  have a: "draw_layout_text sample_image ?b mono_file False =
     Inr (sample_image\<lparr>img_ops :=
       [DrawText 0 0 (str ''a'') (str ''#ffffff''), DrawText 0 12 (str ''b'') (str ''#ffffff''),
        DrawText 0 (3715469692580659 / 140737488355328) (str ''c'') (str ''#ffffff'')]\<rparr>)"
    using th unfolding two_paragraph_locals two_paragraph_facts split_on_sample
    by (simp add: wrap_a_b wrap_c two_paragraph_fits pl six_line_facts(4) advance_Suc
        sample_floats)
  have b: "draw_layout_text sample_image ?b mono_file True =
     Inr (sample_image\<lparr>img_ops :=
       [DrawText 0 0 (str ''a b'') (str ''#ffffff''),
        DrawText 0 12 (str ''c'') (str ''#ffffff'')]\<rparr>)"
    using th unfolding two_paragraph_locals two_paragraph_facts split_on_sample
    by (simp add: two_paragraph_fits pl six_line_facts(4) sample_floats)
  show ?thesis
    using a b load_mono_file_10 by simp
qed

text \<open>
  C5. Every line that a block draws is drawn at the horizontal position
  \<open>x + (w - line_width) / 2\<close> when \<open>textAlign\<close> is \<open>center\<close>, at \<open>x + (w - line_width)\<close>
  when it is \<open>right\<close>, and at \<open>x\<close> for every other value, \<open>left\<close> and the unrecognised
  ones alike; \<open>x\<close> and \<open>w\<close> are the pixel origin and width of the box, and the sums,
  the difference and the quotient are those of floats.
\<close>

theorem horizontal_alignment:
  assumes "load_font fp (fontSize (block_style b)) = Inr f"
    and "v = layout_locals img b f"
    and "x = fmul (box_x (block_box b)) (fl (of_int (img_width img)))"
    and "w = fmul (box_width (block_box b)) (fl (of_int (img_width img)))"
    and "a = textAlign (block_style b)"
  shows "draw_layout_text img b fp r =
           Inr (img\<lparr>img_ops := img_ops img @ concat (map
             (\<lambda>(l, cy). line_ops l
                 (if a = str ''center'' then fadd x (fdiv (fsub w (measure_text f l)) 2)
                  else if a = str ''right'' then fadd x (fsub w (measure_text f l))
                  else x)
                 cy f (color (block_style b)) (v_underline v) (v_bold v) (v_italic v)
                 (v_line_height v))
             (takeWhile (fits v) (spec_layout_plan v (block_text b) r)))\<rparr>)"
proof -
  have "placed v = (\<lambda>(l, cy). line_ops l
                 (if a = str ''center'' then fadd x (fdiv (fsub w (measure_text f l)) 2)
                  else if a = str ''right'' then fadd x (fsub w (measure_text f l))
                  else x)
                 cy f (color (block_style b)) (v_underline v) (v_bold v) (v_italic v)
                 (v_line_height v))"
    using assms(2-5)
    by (auto simp: placed_def layout_locals_def fun_eq_iff str_def)
  then show ?thesis
    using draw_layout_text_plan[OF assms(1), of img r] assms(2) by simp
qed



theorem horizontal_alignment_witness:
  "load_font mono_file 10 = Inr (mono_font 10) \<and>
   draw_layout_text sample_image (two_paragraph_block (str ''center'')) mono_file True =
     Inr (sample_image\<lparr>img_ops :=
       [DrawText (- 10) 0 (str ''a b'') (str ''#ffffff''),
        DrawText 0 12 (str ''c'') (str ''#ffffff'')]\<rparr>)"
proof -
  let ?b = "two_paragraph_block (str ''center'')"
  let ?v = "layout_locals sample_image ?b (mono_font 10)"
  have load: "load_font mono_file (fontSize (block_style ?b)) = Inr (mono_font 10)"
    using load_mono_file_10 by (simp add: two_paragraph_facts)
  have plan: "spec_layout_plan ?v (str ''a b'' @ 10 # str ''c'') True =
      [(str ''a b'', 0), (str ''c'', 12)]"
    by (simp add: spec_layout_plan_def two_paragraph_locals split_on_two_paragraphs
        sample_floats)
  have xw: "fmul (box_x (block_box ?b)) (fl (of_int (img_width sample_image))) = 0"
    "fmul (box_width (block_box ?b)) (fl (of_int (img_width sample_image))) = 10"
    by (simp_all add: sample_defs sample_floats)
  have m: "measure_text (mono_font 10) (str ''a b'') = 30"
    "measure_text (mono_font 10) (str ''c'') = 10"
    by (simp_all add: mono_font_def measure_text_def str_def)
  have "draw_layout_text sample_image ?b mono_file True =
     Inr (sample_image\<lparr>img_ops :=
       [DrawText (- 10) 0 (str ''a b'') (str ''#ffffff''),
        DrawText 0 12 (str ''c'') (str ''#ffffff'')]\<rparr>)"
    using horizontal_alignment[OF load refl refl refl refl, of sample_image True]
    unfolding xw two_paragraph_locals two_paragraph_facts
    by (simp add: plan two_paragraph_fits plain_line_ops six_line_facts(4) m sample_floats)
  then show ?thesis
    using load_mono_file_10 by simp
qed

section \<open>Properties of the render operations\<close>

text \<open>
  Both operations check the dimensions before anything is drawn, and \<open>fonts_preview\<close>
  checks the font size with them.
\<close>

lemma fonts_preview_rejects:
  "pr_size p \<le> 0 \<or> pr_width p \<le> 0 \<or> pr_height p \<le> 0 \<Longrightarrow> \<exists>e. fonts_preview d p = Inl e"
  by (auto simp: fonts_preview_def split: sum.splits)

lemma fonts_layout_rejects_dimensions:
  "lr_width p \<le> 0 \<or> lr_height p \<le> 0 \<Longrightarrow> \<exists>e. fonts_layout d p = Inl e"
  by (auto simp: fonts_layout_def fonts_layout_begin_def split: sum.splits)

lemma draw_first_block:
  "draw_layout_text (Image_new ''RGBA'' 100 100 (ColorStr (str ''#000000'')))
      (sample_block (str ''a'') (str ''left'') 1 10) mono_file False =
   Inr ((Image_new ''RGBA'' 100 100 (ColorStr (str ''#000000'')))
          \<lparr>img_ops := [DrawText 0 0 (str ''a'') (str ''#ffffff'')]\<rparr>)"
  by (simp add: draw_layout_text_def load_mono_file_10 sample_block_def Let_def split_on_def
      str_def layout_locals_def Image_new_def sample_floats wrap_text_lines_def isspace_def
      flush_def mono_font_def measure_text_def draw_line_with_style_def draw_def)

lemma draw_second_block:
  "draw_layout_text img (sample_block (str ''b'') (str ''left'') 1 0) mono_file False = Inl Unhandled"
  by (simp add: draw_layout_text_def load_font_def mono_file_def sample_block_def)

text \<open>
  C9 fails for the font size of a layout block, which \<open>fonts_layout\<close> never checks. On
  the request \<open>zero_size_request\<close> the checks pass and the image is created; the first
  block is drawn; the font size 0 of the second block is met only when \<open>load_font\<close> is
  called for it, and the exception of that call ends the request with one line already
  drawn on the image.
\<close>

theorem fonts_layout_font_size_unchecked:
  "fonts_layout_begin sample_dir zero_size_request =
     Inr (Image_new ''RGBA'' 100 100 (ColorStr (str ''#000000'')), mono_file, str ''png'') \<and>
   draw_blocks (Image_new ''RGBA'' 100 100 (ColorStr (str ''#000000'')))
       (lr_blocks zero_size_request) mono_file (lr_respectLineBreaks zero_size_request) =
     ((Image_new ''RGBA'' 100 100 (ColorStr (str ''#000000'')))
         \<lparr>img_ops := [DrawText 0 0 (str ''a'') (str ''#ffffff'')]\<rparr>,
      Some Unhandled) \<and>
   fonts_layout sample_dir zero_size_request = Inl Unhandled"
proof -
  have a: "fonts_layout_begin sample_dir zero_size_request =
     Inr (Image_new ''RGBA'' 100 100 (ColorStr (str ''#000000'')), mono_file, str ''png'')"
    by (simp add: fonts_layout_begin_def resolve_font_path_def sample_dir_def zero_size_request_def
        lower_def str_def Let_def)
  have b: "draw_blocks (Image_new ''RGBA'' 100 100 (ColorStr (str ''#000000'')))
       (lr_blocks zero_size_request) mono_file (lr_respectLineBreaks zero_size_request) =
     ((Image_new ''RGBA'' 100 100 (ColorStr (str ''#000000'')))
         \<lparr>img_ops := [DrawText 0 0 (str ''a'') (str ''#ffffff'')]\<rparr>,
      Some Unhandled)"
    by (simp add: zero_size_request_def draw_first_block draw_second_block)
  show ?thesis
    using a b by (simp add: fonts_layout_def)
qed

end
